theory Spec2Isabelle
  imports Main
begin

section \<open>The task store of index.js\<close>

text \<open>
  The service keeps one process-wide array \<open>tasks\<close> and answers five routes over it.
  Each handler runs to completion on one thread, so a handler is modelled as a function
  from the array before the request to the array after it and the response sent.
\<close>

subsection \<open>Tasks and the seed array\<close>

text \<open>
  A task is the object literal \<open>{ id, title, completed }\<close>. The field \<open>id\<close> is named
  \<open>task_id\<close> here, since \<open>id\<close> is the identity function of HOL. Ids are JavaScript
  numbers that only ever hold integers (a seed constant or \<open>tasks.length + 1\<close>), so they
  are integers in the model.
\<close>

record task =
  task_id :: int
  title :: string
  completed :: bool

definition initial_tasks :: "task list" where
  "initial_tasks =
    [\<lparr>task_id = 1, title = ''Learn Express'', completed = False\<rparr>,
     \<lparr>task_id = 2, title = ''Build a REST API'', completed = False\<rparr>,
     \<lparr>task_id = 3, title = ''Test API with Postman'', completed = True\<rparr>,
     \<lparr>task_id = 4, title = ''Add Swagger Documentation'', completed = False\<rparr>,
     \<lparr>task_id = 5, title = ''Deploy to Server'', completed = False\<rparr>]"

subsection \<open>Request bodies\<close>

text \<open>
  \<open>express.json()\<close> hands the handler the parsed JSON object of the request as
  \<open>req.body\<close>. A parsed object is a finite map from property names to JSON values; a
  property that is absent reads as \<open>undefined\<close>, which is \<open>None\<close> here. The handlers
  look at the type tag of a value only, never at a number's magnitude, so a JSON number
  carries an integer. A request with an array as body reads like one with the object that
  has neither property.
\<close>

datatype json =
    JNull
  | JBool bool
  | JNum int
  | JStr string
  | JArr "json list"
  | JObj "(string \<times> json) list"

type_synonym body = "string \<rightharpoonup> json"

text \<open>The \<open>typeof\<close> operator on a property read.\<close>

fun typeof :: "json option \<Rightarrow> string" where
  "typeof None = ''undefined''"
| "typeof (Some JNull) = ''object''"
| "typeof (Some (JBool b)) = ''boolean''"
| "typeof (Some (JNum n)) = ''number''"
| "typeof (Some (JStr s)) = ''string''"
| "typeof (Some (JArr xs)) = ''object''"
| "typeof (Some (JObj kvs)) = ''object''"

text \<open>
  The value carried by a property whose \<open>typeof\<close> has been checked. They are total;
  the handlers call them only behind the matching \<open>typeof\<close> guard.
\<close>

fun string_of :: "json option \<Rightarrow> string" where
  "string_of (Some (JStr s)) = s"
| "string_of v = []"

fun bool_of :: "json option \<Rightarrow> bool" where
  "bool_of (Some (JBool b)) = b"
| "bool_of v = False"

subsection \<open>Responses\<close>

text \<open>
  Every response is \<open>res.status(n).json({ success, data, message })\<close>; \<open>res.json\<close> alone
  sends status 200. The \<open>data\<close> property is a task, an array of tasks, or absent.
\<close>

datatype payload = Task task | Tasks "task list"

record response =
  status :: nat
  success :: bool
  data :: "payload option"
  message :: string

subsection \<open>Path identifiers and parseInt\<close>

text \<open>
  \<open>req.params.id\<close> is a JavaScript string: a sequence of UTF-16 code units. The handlers
  read it character by character (through \<open>parseInt\<close>), so it is a list of code units
  in the model, each a natural number below \<open>2^16\<close>. \<open>ascii\<close> turns a literal of ASCII
  characters into its code units. Titles are never looked into and stay HOL strings.
\<close>

type_synonym code_unit = nat

type_synonym js_string = "code_unit list"

definition ascii :: "string \<Rightarrow> js_string" where
  "ascii s = map of_char s"

text \<open>
  \<open>parseInt(req.params.id)\<close> is the ECMAScript builtin called on a string with no radix:
  leading white space is dropped, one sign is read, a prefix \<open>0x\<close> or \<open>0X\<close> switches to
  radix 16, and the longest run of digits of the radix is the number; no digit at all
  gives \<open>NaN\<close>, which is \<open>None\<close> here. White space is what ECMAScript calls WhiteSpace
  and LineTerminator: TAB, LF, VT, FF, CR, SP, U+00A0, U+1680, U+2000 to U+200A, U+2028,
  U+2029, U+202F, U+205F, U+3000 and U+FEFF. The digits are the ASCII digits and letters
  only. The result is exact; JavaScript rounds integers beyond \<open>2^53\<close> to the nearest
  double.
\<close>

definition is_white_space :: "code_unit \<Rightarrow> bool" where
  "is_white_space c =
    (c = 0x0009 \<or> c = 0x000A \<or> c = 0x000B \<or> c = 0x000C \<or> c = 0x000D \<or> c = 0x0020 \<or>
     c = 0x00A0 \<or> c = 0x1680 \<or> (0x2000 \<le> c \<and> c \<le> 0x200A) \<or> c = 0x2028 \<or> c = 0x2029 \<or>
     c = 0x202F \<or> c = 0x205F \<or> c = 0x3000 \<or> c = 0xFEFF)"

definition digit_value :: "code_unit \<Rightarrow> nat option" where
  "digit_value c =
    (if 48 \<le> c \<and> c \<le> 57 then Some (c - 48)
     else if 97 \<le> c \<and> c \<le> 122 then Some (c - 87)
     else if 65 \<le> c \<and> c \<le> 90 then Some (c - 55)
     else None)"

definition is_radix_digit :: "nat \<Rightarrow> code_unit \<Rightarrow> bool" where
  "is_radix_digit R c = (case digit_value c of None \<Rightarrow> False | Some d \<Rightarrow> d < R)"

definition digits_value :: "nat \<Rightarrow> js_string \<Rightarrow> nat" where
  "digits_value R Z =
    foldl (\<lambda>acc c. acc * R + (case digit_value c of None \<Rightarrow> 0 | Some d \<Rightarrow> d)) 0 Z"

definition strip_sign :: "js_string \<Rightarrow> int \<times> js_string" where
  "strip_sign S =
    (case S of
       [] \<Rightarrow> (1, [])
     | c # cs \<Rightarrow>
         if [c] = ascii ''-'' then (- 1, cs) else if [c] = ascii ''+'' then (1, cs) else (1, S))"

definition strip_prefix :: "js_string \<Rightarrow> nat \<times> js_string" where
  "strip_prefix S =
    (if take 2 S = ascii ''0x'' \<or> take 2 S = ascii ''0X'' then (16, drop 2 S) else (10, S))"

definition parseInt :: "js_string \<Rightarrow> int option" where
  "parseInt inputString =
    (let S = dropWhile is_white_space inputString;
         (sign, S1) = strip_sign S;
         (R, S2) = strip_prefix S1;
         Z = takeWhile (is_radix_digit R) S2
     in if Z = [] then None else Some (sign * int (digits_value R Z)))"

subsection \<open>Array methods\<close>

text \<open>
  \<open>Array.prototype.find\<close> returns the first element that satisfies the callback, or
  \<open>undefined\<close>: this is \<^const>\<open>List.find\<close>, with \<open>None\<close> for \<open>undefined\<close>.
  \<open>Array.prototype.findIndex\<close> returns the position of that element, or \<open>-1\<close>.
  \<open>splice(start, deleteCount)\<close> cuts \<open>deleteCount\<close> elements out of the array from
  \<open>start\<close> on and returns them as an array; the model returns the array that is left
  and the array that was cut out. It is named \<open>array_splice\<close>, since \<open>splice\<close> is a
  list function of HOL.
\<close>

fun findIndex :: "('a \<Rightarrow> bool) \<Rightarrow> 'a list \<Rightarrow> int" where
  "findIndex P [] = - 1"
| "findIndex P (x # xs) =
    (if P x then 0 else (let k = findIndex P xs in if k = - 1 then - 1 else k + 1))"

definition array_splice :: "nat \<Rightarrow> nat \<Rightarrow> 'a list \<Rightarrow> 'a list \<times> 'a list" where
  "array_splice start deleteCount xs =
    (take start xs @ drop (start + deleteCount) xs, take deleteCount (drop start xs))"

subsection \<open>The route handlers\<close>

text \<open>
  The callback \<open>t => t.id === parseInt(req.params.id)\<close>. Strict equality with \<open>NaN\<close> is
  false for every number.
\<close>

definition id_matches :: "js_string \<Rightarrow> task \<Rightarrow> bool" where
  "id_matches param t = (parseInt param = Some (task_id t))"

definition not_found :: response where
  "not_found = \<lparr>status = 404, success = False, data = None, message = ''Task not found''\<rparr>"

definition invalid_data :: response where
  "invalid_data = \<lparr>status = 400, success = False, data = None, message = ''Invalid data''\<rparr>"

text \<open>\<open>app.get('/api/tasks')\<close>\<close>

definition get_tasks :: "task list \<Rightarrow> response" where
  "get_tasks tasks =
    \<lparr>status = 200, success = True, data = Some (Tasks tasks),
     message = ''Tasks fetched successfully''\<rparr>"

text \<open>\<open>app.get('/api/tasks/:id')\<close>\<close>

definition get_task :: "task list \<Rightarrow> js_string \<Rightarrow> response" where
  "get_task tasks param =
    (case find (id_matches param) tasks of
       None \<Rightarrow> not_found
     | Some t \<Rightarrow>
         \<lparr>status = 200, success = True, data = Some (Task t),
          message = ''Task fetched successfully''\<rparr>)"

text \<open>\<open>app.post('/api/tasks')\<close>\<close>

definition post_task :: "task list \<Rightarrow> body \<Rightarrow> task list \<times> response" where
  "post_task tasks req_body =
    (let b_title = req_body ''title''; b_completed = req_body ''completed'' in
     if typeof b_title \<noteq> ''string'' \<or> typeof b_completed \<noteq> ''boolean''
     then (tasks, invalid_data)
     else
       (let newTask = \<lparr>task_id = int (length tasks) + 1, title = string_of b_title,
                       completed = bool_of b_completed\<rparr>
        in (tasks @ [newTask],
            \<lparr>status = 201, success = True, data = Some (Task newTask),
             message = ''Task created successfully''\<rparr>)))"

text \<open>
  \<open>app.put('/api/tasks/:id')\<close>. The handler writes \<open>title\<close> and \<open>completed\<close> into the
  object that \<open>find\<close> returned, which is the array's element at the first matching
  position. Every slot of the array holds an object of its own (a literal of the seed or
  of one POST), so the write changes that slot and no other.
\<close>

definition put_task :: "task list \<Rightarrow> js_string \<Rightarrow> body \<Rightarrow> task list \<times> response" where
  "put_task tasks param req_body =
    (case find (id_matches param) tasks of
       None \<Rightarrow> (tasks, not_found)
     | Some t \<Rightarrow>
         (let b_title = req_body ''title''; b_completed = req_body ''completed'' in
          if typeof b_title \<noteq> ''string'' \<or> typeof b_completed \<noteq> ''boolean''
          then (tasks, invalid_data)
          else
            (let t' = t\<lparr>title := string_of b_title, completed := bool_of b_completed\<rparr>
             in (tasks[nat (findIndex (id_matches param) tasks) := t'],
                 \<lparr>status = 200, success = True, data = Some (Task t'),
                  message = ''Task updated successfully''\<rparr>))))"

text \<open>\<open>app.delete('/api/tasks/:id')\<close>\<close>

definition delete_task :: "task list \<Rightarrow> js_string \<Rightarrow> task list \<times> response" where
  "delete_task tasks param =
    (let taskIndex = findIndex (id_matches param) tasks in
     if taskIndex = - 1 then (tasks, not_found)
     else
       (let (tasks', deletedTask) = array_splice (nat taskIndex) 1 tasks
        in (tasks',
            \<lparr>status = 200, success = True, data = Some (Tasks deletedTask),
             message = ''Task deleted successfully''\<rparr>)))"

subsection \<open>The server as a transition system\<close>

datatype request =
    GET_tasks
  | GET_task js_string
  | POST_task body
  | PUT_task js_string body
  | DELETE_task js_string

fun handle :: "task list \<Rightarrow> request \<Rightarrow> task list \<times> response" where
  "handle tasks GET_tasks = (tasks, get_tasks tasks)"
| "handle tasks (GET_task param) = (tasks, get_task tasks param)"
| "handle tasks (POST_task req_body) = post_task tasks req_body"
| "handle tasks (PUT_task param req_body) = put_task tasks param req_body"
| "handle tasks (DELETE_task param) = delete_task tasks param"

text \<open>The array after a sequence of requests, served one after the other.\<close>

fun run :: "task list \<Rightarrow> request list \<Rightarrow> task list" where
  "run tasks [] = tasks"
| "run tasks (r # rs) = run (fst (handle tasks r)) rs"

text \<open>The arrays the process can hold: the seed, and what a request leaves of one.\<close>

inductive reachable :: "task list \<Rightarrow> bool" where
  seed: "reachable initial_tasks"
| step: "reachable tasks \<Longrightarrow> reachable (fst (handle tasks r))"

subsection \<open>The leading numeric prefix of a path identifier\<close>

text \<open>
  The notion claim C9 is stated with, written independently of \<^const>\<open>parseInt\<close> to be
  compared with it: the run of decimal digits a string starts with, and the number that
  run denotes.
\<close>

definition is_decimal_digit :: "code_unit \<Rightarrow> bool" where
  "is_decimal_digit c = (c \<in> set (ascii ''0123456789''))"

definition leading_numeric_prefix :: "js_string \<Rightarrow> js_string" where
  "leading_numeric_prefix s = takeWhile is_decimal_digit s"

definition decimal_value :: "js_string \<Rightarrow> nat" where
  "decimal_value ds = foldl (\<lambda>acc c. 10 * acc + (c - 48)) 0 ds"

section \<open>Properties\<close>

subsection \<open>Array methods and typeof\<close>

lemma findIndex_ge: "- 1 \<le> findIndex P xs"
  by (induction xs) (auto simp: Let_def)

lemma findIndex_none_iff: "findIndex P xs = - 1 \<longleftrightarrow> (\<forall>x\<in>set xs. \<not> P x)"
proof (induction xs)
  case Nil
  show ?case by simp
next
  case (Cons x xs)
  have "findIndex P xs + 1 \<noteq> - 1" using findIndex_ge [of P xs] by arith
  with Cons show ?case by (auto simp: Let_def)
qed

lemma find_none_findIndex: "find P xs = None \<longleftrightarrow> findIndex P xs = - 1"
  by (auto simp: find_None_iff findIndex_none_iff)

lemma findIndex_found:
  assumes "findIndex P xs \<noteq> - 1"
  shows "nat (findIndex P xs) < length xs \<and> find P xs = Some (xs ! nat (findIndex P xs))"
  using assms
proof (induction xs)
  case Nil
  then show ?case by simp
next
  case (Cons x xs)
  show ?case
  proof (cases "P x")
    case True
    then show ?thesis by simp
  next
    case False
    with Cons.prems have k: "findIndex P xs \<noteq> - 1" by (auto simp: Let_def split: if_splits)
    with findIndex_ge [of P xs] have nn: "0 \<le> findIndex P xs" by arith
    from k False have eq: "findIndex P (x # xs) = findIndex P xs + 1" by (simp add: Let_def)
    from nn have "nat (findIndex P xs + 1) = Suc (nat (findIndex P xs))" by arith
    with Cons.IH [OF k] False eq show ?thesis by simp
  qed
qed

lemma findIndex_first: "j < nat (findIndex P xs) \<Longrightarrow> \<not> P (xs ! j)"
proof (induction xs arbitrary: j)
  case Nil
  then show ?case by simp
next
  case (Cons x xs)
  show ?case
  proof (cases "P x")
    case True
    with Cons.prems show ?thesis by simp
  next
    case False
    show ?thesis
    proof (cases j)
      case 0
      with False show ?thesis by simp
    next
      case (Suc j')
      from Cons.prems False have k: "findIndex P xs \<noteq> - 1" by (auto simp: Let_def split: if_splits)
      with findIndex_ge [of P xs] have nn: "0 \<le> findIndex P xs" by arith
      from k False have eq: "findIndex P (x # xs) = findIndex P xs + 1" by (simp add: Let_def)
      from nn have "nat (findIndex P xs + 1) = Suc (nat (findIndex P xs))" by arith
      with Cons.prems eq Suc have "j' < nat (findIndex P xs)" by simp
      from Cons.IH [OF this] Suc show ?thesis by simp
    qed
  qed
qed

lemma first_match:
  assumes "\<exists>u\<in>set xs. P u"
  shows "\<exists>i<length xs. P (xs ! i) \<and> (\<forall>j<i. \<not> P (xs ! j)) \<and>
           find P xs = Some (xs ! i) \<and> findIndex P xs = int i"
proof -
  from assms have k: "findIndex P xs \<noteq> - 1" by (simp add: findIndex_none_iff)
  with findIndex_ge [of P xs] have nn: "0 \<le> findIndex P xs" by arith
  let ?i = "nat (findIndex P xs)"
  from findIndex_found [OF k] have lt: "?i < length xs" and f: "find P xs = Some (xs ! ?i)"
    by simp_all
  from f have "P (xs ! ?i)" by (auto simp: find_Some_iff)
  moreover have "\<forall>j<?i. \<not> P (xs ! j)" using findIndex_first by blast
  moreover from nn have "findIndex P xs = int ?i" by simp
  ultimately show ?thesis using lt f by blast
qed

lemma no_match:
  assumes "\<forall>u\<in>set xs. \<not> P u"
  shows "find P xs = None \<and> findIndex P xs = - 1"
  using assms by (simp add: find_none_findIndex findIndex_none_iff)

lemma first_with_id:
  assumes "i < length tasks" and "id_matches param (tasks ! i)"
      and "\<forall>j<i. task_id (tasks ! j) \<noteq> task_id (tasks ! i)"
  shows "find (id_matches param) tasks = Some (tasks ! i) \<and> findIndex (id_matches param) tasks = int i"
proof -
  from assms(1,2) have "\<exists>u\<in>set tasks. id_matches param u" by auto
  from first_match [OF this] obtain k where k: "k < length tasks" "id_matches param (tasks ! k)"
    "\<forall>j<k. \<not> id_matches param (tasks ! j)" "find (id_matches param) tasks = Some (tasks ! k)"
    "findIndex (id_matches param) tasks = int k" by blast
  have "k = i"
  proof (rule ccontr)
    assume "k \<noteq> i"
    then consider "k < i" | "i < k" by arith
    then show False
    proof cases
      case 1
      with assms(3) have "task_id (tasks ! k) \<noteq> task_id (tasks ! i)" by simp
      with k(2) assms(2) show False by (simp add: id_matches_def)
    next
      case 2
      with k(3) assms(2) show False by simp
    qed
  qed
  with k show ?thesis by simp
qed

lemma array_splice_one:
  assumes "i < length xs"
  shows "array_splice i (Suc 0) xs = (take i xs @ drop (Suc i) xs, [xs ! i])"
  using assms by (simp add: array_splice_def take_Suc_conv_app_nth [of 0] hd_drop_conv_nth take_Suc)

lemma typeof_string_iff: "typeof v = ''string'' \<longleftrightarrow> (\<exists>s. v = Some (JStr s))"
  by (cases v rule: typeof.cases) simp_all

lemma typeof_boolean_iff: "typeof v = ''boolean'' \<longleftrightarrow> (\<exists>b. v = Some (JBool b))"
  by (cases v rule: typeof.cases) simp_all

subsection \<open>parseInt on a leading run of decimal digits\<close>

lemma decimal_digit_range: "is_decimal_digit c \<longleftrightarrow> 48 \<le> c \<and> c \<le> 57"
proof
  assume "is_decimal_digit c"
  then show "48 \<le> c \<and> c \<le> 57" by (auto simp: is_decimal_digit_def ascii_def)
next
  assume "48 \<le> c \<and> c \<le> 57"
  then have "c = 48 \<or> c = 49 \<or> c = 50 \<or> c = 51 \<or> c = 52 \<or> c = 53 \<or> c = 54 \<or> c = 55 \<or> c = 56 \<or> c = 57"
    by arith
  then show "is_decimal_digit c" by (auto simp: is_decimal_digit_def ascii_def)
qed

lemma decimal_digit_value:
  assumes "is_decimal_digit c"
  shows "digit_value c = Some (c - 48) \<and> c - 48 < 10"
  using assms by (auto simp: decimal_digit_range digit_value_def)

lemma radix_10_digit: "is_radix_digit 10 c \<longleftrightarrow> is_decimal_digit c"
  by (auto simp: is_radix_digit_def digit_value_def decimal_digit_range split: if_splits)

lemma decimal_digit_plain:
  assumes "is_decimal_digit c"
  shows "\<not> is_white_space c \<and> [c] \<noteq> ascii ''-'' \<and> [c] \<noteq> ascii ''+''"
  using assms by (auto simp: decimal_digit_range is_white_space_def ascii_def)

lemma digits_value_decimal_acc:
  assumes "\<forall>c\<in>set ds. is_decimal_digit c"
  shows "foldl (\<lambda>acc c. acc * 10 + (case digit_value c of None \<Rightarrow> 0 | Some d \<Rightarrow> d)) a ds =
         foldl (\<lambda>acc c. 10 * acc + (c - 48)) a ds"
  using assms
proof (induction ds arbitrary: a)
  case Nil
  show ?case by simp
next
  case (Cons d ds)
  from Cons.prems have "digit_value d = Some (d - 48)" by (simp add: decimal_digit_value)
  with Cons show ?case by (simp add: mult.commute)
qed

lemma digits_value_decimal:
  "\<forall>c\<in>set ds. is_decimal_digit c \<Longrightarrow> digits_value 10 ds = decimal_value ds"
  by (simp add: digits_value_def decimal_value_def digits_value_decimal_acc)

lemma hex_prefix_value:
  assumes "take 2 s = ascii ''0x'' \<or> take 2 s = ascii ''0X''"
  shows "decimal_value (leading_numeric_prefix s) = 0"
proof -
  from assms obtain r where "s = ascii ''0x'' @ r \<or> s = ascii ''0X'' @ r"
    by (metis append_take_drop_id)
  then show ?thesis
    by (auto simp: leading_numeric_prefix_def decimal_value_def decimal_digit_range ascii_def)
qed

lemma parseInt_leading_digits:
  assumes "leading_numeric_prefix s \<noteq> []"
      and "\<not> (take 2 s = ascii ''0x'' \<or> take 2 s = ascii ''0X'')"
  shows "parseInt s = Some (int (decimal_value (leading_numeric_prefix s)))"
proof -
  from assms(1) obtain c cs where s: "s = c # cs" and c: "is_decimal_digit c"
    by (cases s) (auto simp: leading_numeric_prefix_def split: if_splits)
  from decimal_digit_plain [OF c] s have ws: "dropWhile is_white_space s = s"
    and sg: "strip_sign s = (1, s)"
    by (simp_all add: strip_sign_def)
  from assms(2) have pre: "strip_prefix s = (10, s)" by (simp add: strip_prefix_def)
  have tw: "takeWhile (is_radix_digit 10) s = leading_numeric_prefix s"
    by (simp add: leading_numeric_prefix_def radix_10_digit [abs_def])
  have "\<forall>c\<in>set (leading_numeric_prefix s). is_decimal_digit c"
    by (auto simp: leading_numeric_prefix_def dest: set_takeWhileD)
  from digits_value_decimal [OF this] assms(1) ws sg pre tw show ?thesis
    by (simp add: parseInt_def)
qed

lemma parseInt_positive_prefix:
  assumes "0 < decimal_value (leading_numeric_prefix s)"
  shows "parseInt s = Some (int (decimal_value (leading_numeric_prefix s)))"
proof -
  from assms have "leading_numeric_prefix s \<noteq> []" by (auto simp: decimal_value_def)
  moreover from assms hex_prefix_value [of s]
  have "\<not> (take 2 s = ascii ''0x'' \<or> take 2 s = ascii ''0X'')"
    by auto
  ultimately show ?thesis by (rule parseInt_leading_digits)
qed

text \<open>The equations that evaluate \<open>parseInt\<close> and the handlers on concrete requests.\<close>

lemmas parseInt_eval = parseInt_def strip_sign_def strip_prefix_def is_white_space_def
  is_radix_digit_def digit_value_def digits_value_def ascii_def

lemmas handler_eval = initial_tasks_def get_task_def post_task_def put_task_def delete_task_def
  id_matches_def array_splice_def not_found_def invalid_data_def Let_def

subsection \<open>Get by id\<close>

text \<open>
  Claim C5. GET by id returns 200, success true and the task itself for every task of the
  array that is the first one with its id, when the path identifier parses to that id; so
  for every id present in the array it returns a task of the array with that id. When the
  path identifier parses to no id of the array, or does not parse as an integer at all,
  it returns 404, success false and "Task not found".
\<close>

theorem C5_get_by_id:
  "(\<forall>i<length tasks.
       parseInt param = Some (task_id (tasks ! i)) \<and>
       (\<forall>j<i. task_id (tasks ! j) \<noteq> task_id (tasks ! i)) \<longrightarrow>
       get_task tasks param =
         \<lparr>status = 200, success = True, data = Some (Task (tasks ! i)),
          message = ''Task fetched successfully''\<rparr>)
   \<and> ((\<exists>u\<in>set tasks. parseInt param = Some (task_id u)) \<longrightarrow>
        (\<exists>t\<in>set tasks. parseInt param = Some (task_id t) \<and>
           get_task tasks param =
             \<lparr>status = 200, success = True, data = Some (Task t),
              message = ''Task fetched successfully''\<rparr>))
   \<and> ((\<forall>u\<in>set tasks. parseInt param \<noteq> Some (task_id u)) \<longrightarrow>
        get_task tasks param =
          \<lparr>status = 404, success = False, data = None, message = ''Task not found''\<rparr>)"
proof (intro conjI allI impI)
  fix i
  assume "i < length tasks"
    and "parseInt param = Some (task_id (tasks ! i)) \<and>
         (\<forall>j<i. task_id (tasks ! j) \<noteq> task_id (tasks ! i))"
  then have "find (id_matches param) tasks = Some (tasks ! i)"
    using first_with_id [of i tasks param] by (simp add: id_matches_def)
  then show "get_task tasks param =
         \<lparr>status = 200, success = True, data = Some (Task (tasks ! i)),
          message = ''Task fetched successfully''\<rparr>"
    by (simp add: get_task_def)
next
  assume "\<exists>u\<in>set tasks. parseInt param = Some (task_id u)"
  then have "\<exists>u\<in>set tasks. id_matches param u" by (simp add: id_matches_def)
  from first_match [OF this] obtain i where i: "i < length tasks" "id_matches param (tasks ! i)"
    "find (id_matches param) tasks = Some (tasks ! i)" by blast
  from i(3) have "get_task tasks param =
      \<lparr>status = 200, success = True, data = Some (Task (tasks ! i)),
       message = ''Task fetched successfully''\<rparr>"
    by (simp add: get_task_def)
  moreover from i(1) have "tasks ! i \<in> set tasks" by simp
  moreover from i(2) have "parseInt param = Some (task_id (tasks ! i))" by (simp add: id_matches_def)
  ultimately show "\<exists>t\<in>set tasks. parseInt param = Some (task_id t) \<and>
           get_task tasks param =
             \<lparr>status = 200, success = True, data = Some (Task t),
              message = ''Task fetched successfully''\<rparr>"
    by blast
next
  assume "\<forall>u\<in>set tasks. parseInt param \<noteq> Some (task_id u)"
  then have "\<forall>u\<in>set tasks. \<not> id_matches param u" by (simp add: id_matches_def)
  from no_match [OF this] show "get_task tasks param =
          \<lparr>status = 404, success = False, data = None, message = ''Task not found''\<rparr>"
    by (simp add: get_task_def not_found_def)
qed

theorem C5_get_by_id_witness:
  "get_task initial_tasks (ascii ''3'') =
     \<lparr>status = 200, success = True,
      data = Some (Task \<lparr>task_id = 3, title = ''Test API with Postman'', completed = True\<rparr>),
      message = ''Task fetched successfully''\<rparr>
   \<and> get_task initial_tasks (ascii ''9'') =
     \<lparr>status = 404, success = False, data = None, message = ''Task not found''\<rparr>
   \<and> get_task initial_tasks (ascii ''abc'') =
     \<lparr>status = 404, success = False, data = None, message = ''Task not found''\<rparr>
   \<and> get_task initial_tasks (0x00A0 # ascii ''3'') =
     \<lparr>status = 200, success = True,
      data = Some (Task \<lparr>task_id = 3, title = ''Test API with Postman'', completed = True\<rparr>),
      message = ''Task fetched successfully''\<rparr>"
proof -
  have pn: "parseInt (0x00A0 # ascii ''3'') = Some 3" by (simp add: parseInt_eval)
  have p3: "parseInt (ascii ''3'') = Some 3" and p9: "parseInt (ascii ''9'') = Some 9"
    and pa: "parseInt (ascii ''abc'') = None" by (simp_all add: parseInt_eval)
  have len: "(2::nat) < length initial_tasks" by (simp add: initial_tasks_def)
  have third: "initial_tasks ! 2 = \<lparr>task_id = 3, title = ''Test API with Postman'', completed = True\<rparr>"
    by (simp add: initial_tasks_def)
  have first: "\<forall>j<2. task_id (initial_tasks ! j) \<noteq> task_id (initial_tasks ! 2)"
    by (simp add: initial_tasks_def less_Suc_eq numeral_2_eq_2)
  have a9: "\<forall>u\<in>set initial_tasks. parseInt (ascii ''9'') \<noteq> Some (task_id u)"
    by (simp add: p9 initial_tasks_def)
  have aa: "\<forall>u\<in>set initial_tasks. parseInt (ascii ''abc'') \<noteq> Some (task_id u)"
    by (simp add: pa)
  from C5_get_by_id [of initial_tasks "ascii ''3''"] len third first p3
  have "get_task initial_tasks (ascii ''3'') =
     \<lparr>status = 200, success = True,
      data = Some (Task \<lparr>task_id = 3, title = ''Test API with Postman'', completed = True\<rparr>),
      message = ''Task fetched successfully''\<rparr>"
    by auto
  moreover from C5_get_by_id [of initial_tasks "ascii ''9''"] a9
  have "get_task initial_tasks (ascii ''9'') =
     \<lparr>status = 404, success = False, data = None, message = ''Task not found''\<rparr>"
    by blast
  moreover from C5_get_by_id [of initial_tasks "ascii ''abc''"] aa
  have "get_task initial_tasks (ascii ''abc'') =
     \<lparr>status = 404, success = False, data = None, message = ''Task not found''\<rparr>"
    by blast
  moreover from C5_get_by_id [of initial_tasks "0x00A0 # ascii ''3''"] len third first pn
  have "get_task initial_tasks (0x00A0 # ascii ''3'') =
     \<lparr>status = 200, success = True,
      data = Some (Task \<lparr>task_id = 3, title = ''Test API with Postman'', completed = True\<rparr>),
      message = ''Task fetched successfully''\<rparr>"
    by auto
  ultimately show ?thesis by simp
qed

subsection \<open>Create\<close>

text \<open>
  Claim C2. For every array and every body whose \<open>title\<close> is a string and whose
  \<open>completed\<close> is a boolean, POST appends exactly one task, with id the length of the
  array before the request plus 1 (whatever ids the array holds) and with the given title
  and completed; the array grows by exactly 1; and the response is 201 with the new task
  as data, success true and the message "Task created successfully".
\<close>

theorem C2_create_appends:
  assumes "req_body ''title'' = Some (JStr t)"
      and "req_body ''completed'' = Some (JBool c)"
  shows "post_task tasks req_body =
           (tasks @ [\<lparr>task_id = int (length tasks) + 1, title = t, completed = c\<rparr>],
            \<lparr>status = 201, success = True,
             data = Some (Task \<lparr>task_id = int (length tasks) + 1, title = t, completed = c\<rparr>),
             message = ''Task created successfully''\<rparr>)
         \<and> length (fst (post_task tasks req_body)) = length tasks + 1"
  using assms by (simp add: post_task_def Let_def)

theorem C2_create_appends_witness:
  "post_task
     [\<lparr>task_id = 1, title = ''a'', completed = False\<rparr>,
      \<lparr>task_id = 7, title = ''b'', completed = True\<rparr>]
     [''title'' \<mapsto> JStr ''X'', ''completed'' \<mapsto> JBool False] =
   ([\<lparr>task_id = 1, title = ''a'', completed = False\<rparr>,
     \<lparr>task_id = 7, title = ''b'', completed = True\<rparr>,
     \<lparr>task_id = 3, title = ''X'', completed = False\<rparr>],
    \<lparr>status = 201, success = True,
     data = Some (Task \<lparr>task_id = 3, title = ''X'', completed = False\<rparr>),
     message = ''Task created successfully''\<rparr>)"
  using C2_create_appends [of "[''title'' \<mapsto> JStr ''X'', ''completed'' \<mapsto> JBool False]" "''X''" False
      "[\<lparr>task_id = 1, title = ''a'', completed = False\<rparr>, \<lparr>task_id = 7, title = ''b'', completed = True\<rparr>]"]
  by simp

text \<open>
  Claim C6. For every array and every body in which \<open>title\<close> is not a string or
  \<open>completed\<close> is not a boolean (an absent property included), POST answers 400 with
  success false and the message "Invalid data", and the array is the same as before.
\<close>

theorem C6_create_invalid:
  assumes "(\<nexists>s. req_body ''title'' = Some (JStr s)) \<or> (\<nexists>b. req_body ''completed'' = Some (JBool b))"
  shows "post_task tasks req_body =
           (tasks, \<lparr>status = 400, success = False, data = None, message = ''Invalid data''\<rparr>)"
  using assms by (auto simp: post_task_def invalid_data_def typeof_string_iff typeof_boolean_iff)

theorem C6_create_invalid_witness:
  "post_task initial_tasks [''title'' \<mapsto> JNum 7, ''completed'' \<mapsto> JBool True] =
     (initial_tasks, \<lparr>status = 400, success = False, data = None, message = ''Invalid data''\<rparr>)
   \<and> post_task initial_tasks [''title'' \<mapsto> JStr ''X''] =
     (initial_tasks, \<lparr>status = 400, success = False, data = None, message = ''Invalid data''\<rparr>)
   \<and> post_task initial_tasks Map.empty =
     (initial_tasks, \<lparr>status = 400, success = False, data = None, message = ''Invalid data''\<rparr>)"
  using C6_create_invalid [of "[''title'' \<mapsto> JNum 7, ''completed'' \<mapsto> JBool True]" initial_tasks]
        C6_create_invalid [of "[''title'' \<mapsto> JStr ''X'']" initial_tasks]
        C6_create_invalid [of Map.empty initial_tasks]
  by simp

text \<open>
  Claim C10. For a valid body, POST reads \<open>title\<close> and \<open>completed\<close> and nothing else:
  any body with the same two properties, whatever \<open>id\<close> or other properties it
  carries, gives the same array and the same response, and the task stored and returned
  is made of the id \<open>length + 1\<close>, the title and completed only.
\<close>

theorem C10_create_ignores_other_fields:
  assumes "req_body ''title'' = Some (JStr t)"
      and "req_body ''completed'' = Some (JBool c)"
      and "req_body' ''title'' = req_body ''title''"
      and "req_body' ''completed'' = req_body ''completed''"
  shows "post_task tasks req_body' = post_task tasks req_body
         \<and> fst (post_task tasks req_body') =
             tasks @ [\<lparr>task_id = int (length tasks) + 1, title = t, completed = c\<rparr>]
         \<and> data (snd (post_task tasks req_body')) =
             Some (Task \<lparr>task_id = int (length tasks) + 1, title = t, completed = c\<rparr>)"
  using assms by (simp add: post_task_def Let_def)

theorem C10_create_ignores_other_fields_witness:
  "post_task initial_tasks
     [''id'' \<mapsto> JNum 99, ''title'' \<mapsto> JStr ''X'', ''completed'' \<mapsto> JBool True, ''owner'' \<mapsto> JStr ''me'']
   = post_task initial_tasks [''title'' \<mapsto> JStr ''X'', ''completed'' \<mapsto> JBool True]
   \<and> fst (post_task initial_tasks
         [''id'' \<mapsto> JNum 99, ''title'' \<mapsto> JStr ''X'', ''completed'' \<mapsto> JBool True, ''owner'' \<mapsto> JStr ''me''])
     = initial_tasks @ [\<lparr>task_id = 6, title = ''X'', completed = True\<rparr>]"
  using C10_create_ignores_other_fields
    [of "[''title'' \<mapsto> JStr ''X'', ''completed'' \<mapsto> JBool True]" "''X''" True
        "[''id'' \<mapsto> JNum 99, ''title'' \<mapsto> JStr ''X'', ''completed'' \<mapsto> JBool True, ''owner'' \<mapsto> JStr ''me'']"
        initial_tasks]
  by (simp add: initial_tasks_def post_task_def Let_def)

subsection \<open>Update\<close>

text \<open>
  Claim C4. PUT resolves the task before it looks at the body: when the path identifier
  parses to no id of the array (or does not parse), the answer is 404 "Task not found"
  and the array is unchanged, whatever the body is; when it parses to the id of a task
  and \<open>title\<close> is not a string or \<open>completed\<close> is not a boolean, the answer is 400
  "Invalid data" and the array is unchanged.
\<close>

theorem C4_update_resolution_order:
  "((\<forall>u\<in>set tasks. parseInt param \<noteq> Some (task_id u)) \<longrightarrow>
      put_task tasks param req_body =
        (tasks, \<lparr>status = 404, success = False, data = None, message = ''Task not found''\<rparr>))
   \<and> ((\<exists>u\<in>set tasks. parseInt param = Some (task_id u)) \<and>
        ((\<nexists>s. req_body ''title'' = Some (JStr s)) \<or> (\<nexists>b. req_body ''completed'' = Some (JBool b))) \<longrightarrow>
      put_task tasks param req_body =
        (tasks, \<lparr>status = 400, success = False, data = None, message = ''Invalid data''\<rparr>))"
proof (intro conjI impI)
  assume "\<forall>u\<in>set tasks. parseInt param \<noteq> Some (task_id u)"
  then have "\<forall>u\<in>set tasks. \<not> id_matches param u" by (simp add: id_matches_def)
  from no_match [OF this] show "put_task tasks param req_body =
        (tasks, \<lparr>status = 404, success = False, data = None, message = ''Task not found''\<rparr>)"
    by (simp add: put_task_def not_found_def)
next
  assume a: "(\<exists>u\<in>set tasks. parseInt param = Some (task_id u)) \<and>
        ((\<nexists>s. req_body ''title'' = Some (JStr s)) \<or> (\<nexists>b. req_body ''completed'' = Some (JBool b)))"
  then have "\<exists>u\<in>set tasks. id_matches param u" by (simp add: id_matches_def)
  from first_match [OF this] obtain t where f: "find (id_matches param) tasks = Some t" by blast
  from a have "typeof (req_body ''title'') \<noteq> ''string'' \<or> typeof (req_body ''completed'') \<noteq> ''boolean''"
    by (simp add: typeof_string_iff typeof_boolean_iff)
  with f show "put_task tasks param req_body =
        (tasks, \<lparr>status = 400, success = False, data = None, message = ''Invalid data''\<rparr>)"
    by (auto simp: put_task_def invalid_data_def Let_def)
qed

theorem C4_update_resolution_order_witness:
  "put_task initial_tasks (ascii ''9'') [''title'' \<mapsto> JStr ''X'', ''completed'' \<mapsto> JBool True] =
     (initial_tasks, \<lparr>status = 404, success = False, data = None, message = ''Task not found''\<rparr>)
   \<and> put_task initial_tasks (ascii ''9'') [''title'' \<mapsto> JNum 1] =
     (initial_tasks, \<lparr>status = 404, success = False, data = None, message = ''Task not found''\<rparr>)
   \<and> put_task initial_tasks (ascii ''2'') [''title'' \<mapsto> JNum 1, ''completed'' \<mapsto> JBool True] =
     (initial_tasks, \<lparr>status = 400, success = False, data = None, message = ''Invalid data''\<rparr>)
   \<and> put_task initial_tasks (0x00A0 # ascii ''3'') [''title'' \<mapsto> JNum 1, ''completed'' \<mapsto> JBool True] =
     (initial_tasks, \<lparr>status = 400, success = False, data = None, message = ''Invalid data''\<rparr>)"
proof -
  have pn: "parseInt (0x00A0 # ascii ''3'') = Some 3" by (simp add: parseInt_eval)
  have present_n: "\<exists>u\<in>set initial_tasks. parseInt (0x00A0 # ascii ''3'') = Some (task_id u)"
    by (simp add: pn initial_tasks_def)
  have p9: "parseInt (ascii ''9'') = Some 9" and p2: "parseInt (ascii ''2'') = Some 2" by (simp_all add: parseInt_eval)
  have absent: "\<forall>u\<in>set initial_tasks. parseInt (ascii ''9'') \<noteq> Some (task_id u)"
    by (simp add: p9 initial_tasks_def)
  have present: "\<exists>u\<in>set initial_tasks. parseInt (ascii ''2'') = Some (task_id u)"
    by (simp add: p2 initial_tasks_def)
  have bad: "(\<nexists>s. [''title'' \<mapsto> JNum 1, ''completed'' \<mapsto> JBool True] ''title'' = Some (JStr s))"
    by simp
  from C4_update_resolution_order [of initial_tasks "ascii ''9''" "[''title'' \<mapsto> JStr ''X'', ''completed'' \<mapsto> JBool True]"]
       C4_update_resolution_order [of initial_tasks "ascii ''9''" "[''title'' \<mapsto> JNum 1]"]
       C4_update_resolution_order [of initial_tasks "ascii ''2''" "[''title'' \<mapsto> JNum 1, ''completed'' \<mapsto> JBool True]"]
       C4_update_resolution_order [of initial_tasks "0x00A0 # ascii ''3''" "[''title'' \<mapsto> JNum 1, ''completed'' \<mapsto> JBool True]"]
       absent present present_n bad
  show ?thesis by blast
qed

text \<open>
  Claim C7. For every array, a PUT whose path identifier parses to an id of the array and
  whose body is valid changes one slot only: the first position \<open>i\<close> whose task has that
  id. The task there gets the title and completed of the body and keeps its id; the
  length of the array, the ids in order and the task at every other position are as
  before. The response is 200 with the updated task.
\<close>

theorem C7_update_frame:
  assumes "\<exists>u\<in>set tasks. parseInt param = Some (task_id u)"
      and "req_body ''title'' = Some (JStr t)"
      and "req_body ''completed'' = Some (JBool c)"
  shows "\<exists>i<length tasks. \<exists>tasks'.
           parseInt param = Some (task_id (tasks ! i)) \<and>
           (\<forall>j<i. parseInt param \<noteq> Some (task_id (tasks ! j))) \<and>
           put_task tasks param req_body =
             (tasks',
              \<lparr>status = 200, success = True, data = Some (Task (tasks' ! i)),
               message = ''Task updated successfully''\<rparr>) \<and>
           tasks' = tasks[i := (tasks ! i)\<lparr>title := t, completed := c\<rparr>] \<and>
           length tasks' = length tasks \<and>
           task_id (tasks' ! i) = task_id (tasks ! i) \<and>
           title (tasks' ! i) = t \<and> completed (tasks' ! i) = c \<and>
           map task_id tasks' = map task_id tasks \<and>
           (\<forall>j<length tasks. j \<noteq> i \<longrightarrow> tasks' ! j = tasks ! j)"
proof -
  from assms(1) have "\<exists>u\<in>set tasks. id_matches param u" by (simp add: id_matches_def)
  from first_match [OF this] obtain i where i: "i < length tasks" "id_matches param (tasks ! i)"
    "\<forall>j<i. \<not> id_matches param (tasks ! j)" "find (id_matches param) tasks = Some (tasks ! i)"
    "findIndex (id_matches param) tasks = int i" by blast
  let ?new = "(tasks ! i)\<lparr>title := t, completed := c\<rparr>"
  let ?tasks' = "tasks[i := ?new]"
  have put: "put_task tasks param req_body =
      (?tasks', \<lparr>status = 200, success = True, data = Some (Task ?new),
                 message = ''Task updated successfully''\<rparr>)"
    using i(4,5) assms(2,3) by (simp add: put_task_def Let_def)
  have nth: "?tasks' ! i = ?new" using i(1) by simp
  have ids: "map task_id ?tasks' = map task_id tasks"
    using i(1) by (simp add: map_update list_update_same_conv)
  have others: "\<forall>j<length tasks. j \<noteq> i \<longrightarrow> ?tasks' ! j = tasks ! j" by simp
  from i(2) have m: "parseInt param = Some (task_id (tasks ! i))" by (simp add: id_matches_def)
  from i(3) have e: "\<forall>j<i. parseInt param \<noteq> Some (task_id (tasks ! j))" by (simp add: id_matches_def)
  from i(1) m e put nth ids others show ?thesis
    by (intro exI [of _ i] exI [of _ ?tasks'] conjI) simp_all
qed

theorem C7_update_frame_witness:
  "put_task initial_tasks (ascii ''2'') [''title'' \<mapsto> JStr ''X'', ''completed'' \<mapsto> JBool True] =
     ([\<lparr>task_id = 1, title = ''Learn Express'', completed = False\<rparr>,
       \<lparr>task_id = 2, title = ''X'', completed = True\<rparr>,
       \<lparr>task_id = 3, title = ''Test API with Postman'', completed = True\<rparr>,
       \<lparr>task_id = 4, title = ''Add Swagger Documentation'', completed = False\<rparr>,
       \<lparr>task_id = 5, title = ''Deploy to Server'', completed = False\<rparr>],
      \<lparr>status = 200, success = True,
       data = Some (Task \<lparr>task_id = 2, title = ''X'', completed = True\<rparr>),
       message = ''Task updated successfully''\<rparr>)"
proof -
  have p2: "parseInt (ascii ''2'') = Some 2" by (simp add: parseInt_eval)
  have present: "\<exists>u\<in>set initial_tasks. parseInt (ascii ''2'') = Some (task_id u)"
    by (simp add: p2 initial_tasks_def)
  from C7_update_frame [OF present, of "[''title'' \<mapsto> JStr ''X'', ''completed'' \<mapsto> JBool True]" "''X''" True]
  obtain i tasks' where w: "i < length initial_tasks" "parseInt (ascii ''2'') = Some (task_id (initial_tasks ! i))"
    "put_task initial_tasks (ascii ''2'') [''title'' \<mapsto> JStr ''X'', ''completed'' \<mapsto> JBool True] =
       (tasks', \<lparr>status = 200, success = True, data = Some (Task (tasks' ! i)),
                 message = ''Task updated successfully''\<rparr>)"
    "tasks' = initial_tasks[i := (initial_tasks ! i)\<lparr>title := ''X'', completed := True\<rparr>]"
    by auto
  from w(1) have "i = 0 \<or> i = 1 \<or> i = 2 \<or> i = 3 \<or> i = 4" by (simp add: initial_tasks_def) arith
  with w(2) have "i = 1" by (auto simp: p2 initial_tasks_def)
  with w(3,4) show ?thesis by (simp add: initial_tasks_def)
qed

subsection \<open>Delete\<close>

lemma delete_task_present:
  assumes "\<exists>u\<in>set tasks. parseInt param = Some (task_id u)"
  shows "\<exists>i<length tasks.
           parseInt param = Some (task_id (tasks ! i)) \<and>
           (\<forall>j<i. parseInt param \<noteq> Some (task_id (tasks ! j))) \<and>
           find (id_matches param) tasks = Some (tasks ! i) \<and>
           delete_task tasks param =
             (take i tasks @ drop (Suc i) tasks,
              \<lparr>status = 200, success = True, data = Some (Tasks [tasks ! i]),
               message = ''Task deleted successfully''\<rparr>)"
proof -
  from assms have "\<exists>u\<in>set tasks. id_matches param u" by (simp add: id_matches_def)
  from first_match [OF this] obtain i where i: "i < length tasks" "id_matches param (tasks ! i)"
    "\<forall>j<i. \<not> id_matches param (tasks ! j)" "find (id_matches param) tasks = Some (tasks ! i)"
    "findIndex (id_matches param) tasks = int i" by blast
  from i(1,5) have "delete_task tasks param =
             (take i tasks @ drop (Suc i) tasks,
              \<lparr>status = 200, success = True, data = Some (Tasks [tasks ! i]),
               message = ''Task deleted successfully''\<rparr>)"
    by (simp add: delete_task_def Let_def array_splice_one)
  with i(1-4) show ?thesis by (auto simp: id_matches_def)
qed

lemma delete_task_absent:
  assumes "\<forall>u\<in>set tasks. parseInt param \<noteq> Some (task_id u)"
  shows "delete_task tasks param =
           (tasks, \<lparr>status = 404, success = False, data = None, message = ''Task not found''\<rparr>)"
proof -
  from assms have "\<forall>u\<in>set tasks. \<not> id_matches param u" by (simp add: id_matches_def)
  from no_match [OF this] show ?thesis by (simp add: delete_task_def not_found_def)
qed

lemma delete_task_length:
  assumes "\<exists>u\<in>set tasks. parseInt param = Some (task_id u)"
  shows "length (fst (delete_task tasks param)) + 1 = length tasks"
proof -
  from delete_task_present [OF assms] obtain i where "i < length tasks"
    "fst (delete_task tasks param) = take i tasks @ drop (Suc i) tasks" by auto
  then show ?thesis by simp
qed

lemma delete_task_unique_id_gone:
  assumes "distinct (map task_id tasks)"
      and "\<exists>u\<in>set tasks. parseInt param = Some (task_id u)"
  shows "\<forall>u\<in>set (fst (delete_task tasks param)). parseInt param \<noteq> Some (task_id u)"
proof -
  from delete_task_present [OF assms(2)] obtain i where i: "i < length tasks"
    "parseInt param = Some (task_id (tasks ! i))"
    "fst (delete_task tasks param) = take i tasks @ drop (Suc i) tasks" by auto
  have "tasks = take i tasks @ tasks ! i # drop (Suc i) tasks"
    using i(1) by (simp add: id_take_nth_drop)
  then have "map task_id tasks =
      map task_id (take i tasks) @ task_id (tasks ! i) # map task_id (drop (Suc i) tasks)"
    by (metis list.simps(9) map_append)
  with assms(1) have "task_id (tasks ! i) \<notin> task_id ` set (take i tasks @ drop (Suc i) tasks)"
    by (metis distinct_append distinct.simps(2) disjoint_insert(1) image_Un list.simps(15) set_map set_append UnE)
  with i(2,3) show ?thesis by auto
qed

lemma delete_then_get_unique:
  assumes "distinct (map task_id tasks)"
      and "\<exists>u\<in>set tasks. parseInt param = Some (task_id u)"
  shows "get_task (fst (delete_task tasks param)) param =
           \<lparr>status = 404, success = False, data = None, message = ''Task not found''\<rparr>"
proof -
  from delete_task_unique_id_gone [OF assms]
  have "\<forall>u\<in>set (fst (delete_task tasks param)). \<not> id_matches param u" by (simp add: id_matches_def)
  from no_match [OF this] show ?thesis by (simp add: get_task_def not_found_def)
qed

lemma delete_twice_unique:
  assumes "distinct (map task_id tasks)"
      and "\<exists>u\<in>set tasks. parseInt param = Some (task_id u)"
  shows "delete_task (fst (delete_task tasks param)) param =
           (fst (delete_task tasks param),
            \<lparr>status = 404, success = False, data = None, message = ''Task not found''\<rparr>)"
  using delete_task_unique_id_gone [OF assms] by (rule delete_task_absent)

text \<open>
  Claim C3 says that a successful DELETE makes the id no longer retrievable by GET. The
  run below breaks it on a reachable array: after \<open>DELETE /api/tasks/3\<close> and a POST the
  array holds two tasks with id 5 (see C1); \<open>DELETE /api/tasks/5\<close> answers 200, removes
  the first of them and returns it as a one-element array; and \<open>GET /api/tasks/5\<close> on
  the array that is left still answers 200, with the other task. The parts of the claim
  that hold on every array are \<open>delete_task_present\<close>, \<open>delete_task_length\<close>
  and \<open>delete_task_absent\<close>; \<open>delete_then_get_unique\<close> is the claim on arrays
  whose ids are distinct.
\<close>

theorem C3_deleted_id_still_retrievable:
  "delete_task (run initial_tasks
       [DELETE_task (ascii ''3''), POST_task [''title'' \<mapsto> JStr ''X'', ''completed'' \<mapsto> JBool False]]) (ascii ''5'') =
     ([\<lparr>task_id = 1, title = ''Learn Express'', completed = False\<rparr>,
       \<lparr>task_id = 2, title = ''Build a REST API'', completed = False\<rparr>,
       \<lparr>task_id = 4, title = ''Add Swagger Documentation'', completed = False\<rparr>,
       \<lparr>task_id = 5, title = ''X'', completed = False\<rparr>],
      \<lparr>status = 200, success = True,
       data = Some (Tasks [\<lparr>task_id = 5, title = ''Deploy to Server'', completed = False\<rparr>]),
       message = ''Task deleted successfully''\<rparr>)
   \<and> get_task (run initial_tasks
       [DELETE_task (ascii ''3''), POST_task [''title'' \<mapsto> JStr ''X'', ''completed'' \<mapsto> JBool False],
        DELETE_task (ascii ''5'')]) (ascii ''5'') =
     \<lparr>status = 200, success = True,
      data = Some (Task \<lparr>task_id = 5, title = ''X'', completed = False\<rparr>),
      message = ''Task fetched successfully''\<rparr>"
  by (simp add: parseInt_eval handler_eval)

text \<open>
  Claim C8 says that repeating a successful DELETE at once answers 404. The run below
  breaks it on a reachable array: after \<open>DELETE /api/tasks/3\<close> and a POST two tasks
  carry the id 5 (see C1), and \<open>DELETE /api/tasks/5\<close> answers 200 twice in a row, first
  with the seed task and then with the posted one. On arrays whose ids are distinct the
  second DELETE answers 404: \<open>delete_twice_unique\<close>.
\<close>

theorem C8_repeated_delete_succeeds:
  "snd (handle (run initial_tasks
       [DELETE_task (ascii ''3''), POST_task [''title'' \<mapsto> JStr ''X'', ''completed'' \<mapsto> JBool False]])
       (DELETE_task (ascii ''5''))) =
     \<lparr>status = 200, success = True,
      data = Some (Tasks [\<lparr>task_id = 5, title = ''Deploy to Server'', completed = False\<rparr>]),
      message = ''Task deleted successfully''\<rparr>
   \<and> snd (handle (run initial_tasks
       [DELETE_task (ascii ''3''), POST_task [''title'' \<mapsto> JStr ''X'', ''completed'' \<mapsto> JBool False],
        DELETE_task (ascii ''5'')]) (DELETE_task (ascii ''5''))) =
     \<lparr>status = 200, success = True,
      data = Some (Tasks [\<lparr>task_id = 5, title = ''X'', completed = False\<rparr>]),
      message = ''Task deleted successfully''\<rparr>"
  by (simp add: parseInt_eval handler_eval)

subsection \<open>Reachable arrays\<close>

lemma post_task_ids:
  "u \<in> set (fst (post_task tasks req_body)) \<Longrightarrow> u \<in> set tasks \<or> task_id u = int (length tasks) + 1"
  by (auto simp: post_task_def Let_def split: if_splits)

lemma put_task_ids:
  assumes "u \<in> set (fst (put_task tasks param req_body))"
  shows "\<exists>v\<in>set tasks. task_id u = task_id v"
proof (cases "find (id_matches param) tasks")
  case None
  with assms show ?thesis by (auto simp: put_task_def)
next
  case (Some t)
  then have t: "t \<in> set tasks" by (auto simp: find_Some_iff)
  from assms Some have "u \<in> set tasks \<or>
      u \<in> set (tasks[nat (findIndex (id_matches param) tasks) :=
                 t\<lparr>title := string_of (req_body ''title''), completed := bool_of (req_body ''completed'')\<rparr>])"
    by (auto simp: put_task_def Let_def split: if_splits)
  then have "u \<in> set tasks \<or>
      u = t\<lparr>title := string_of (req_body ''title''), completed := bool_of (req_body ''completed'')\<rparr>"
    using set_update_subset_insert by fastforce
  with t show ?thesis by auto
qed

lemma delete_task_subset: "set (fst (delete_task tasks param)) \<subseteq> set tasks"
proof -
  have "set (take i tasks @ drop k tasks) \<subseteq> set tasks" for i k
    using set_take_subset [of i tasks] set_drop_subset [of k tasks] by auto
  then show ?thesis
    by (simp add: delete_task_def Let_def array_splice_def)
qed

lemma handle_ids_positive:
  assumes "\<forall>u\<in>set tasks. 0 < task_id u"
  shows "\<forall>u\<in>set (fst (handle tasks r)). 0 < task_id u"
proof (cases r)
  case GET_tasks
  with assms show ?thesis by simp
next
  case (GET_task param)
  with assms show ?thesis by simp
next
  case (POST_task req_body)
  with assms post_task_ids [of _ tasks req_body] show ?thesis by fastforce
next
  case (PUT_task param req_body)
  with assms put_task_ids [of _ tasks param req_body] show ?thesis by fastforce
next
  case (DELETE_task param)
  with assms delete_task_subset [of tasks param] show ?thesis by auto
qed

lemma reachable_ids_positive: "reachable tasks \<Longrightarrow> \<forall>u\<in>set tasks. 0 < task_id u"
proof (induction rule: reachable.induct)
  case seed
  show ?case by (simp add: initial_tasks_def)
next
  case (step tasks r)
  then show ?case by (simp add: handle_ids_positive)
qed

lemma reachable_run: "reachable tasks \<Longrightarrow> reachable (run tasks rs)"
  by (induction rs arbitrary: tasks) (auto intro: reachable.step)

text \<open>
  Claim C1 says that no two tasks share an id in any array reachable from the seed by
  create, update and delete requests. The run below is such an array and breaks it:
  from the seed, \<open>DELETE /api/tasks/3\<close> leaves four tasks, and the next POST gives its
  task the id \<open>4 + 1 = 5\<close>, which the seed task 5 still carries. The theorem states that
  the array after these two requests is reachable, lists it, and states that its ids are
  not distinct.
\<close>

theorem C1_id_collision:
  "reachable (run initial_tasks
     [DELETE_task (ascii ''3''), POST_task [''title'' \<mapsto> JStr ''X'', ''completed'' \<mapsto> JBool False]])
   \<and> run initial_tasks
     [DELETE_task (ascii ''3''), POST_task [''title'' \<mapsto> JStr ''X'', ''completed'' \<mapsto> JBool False]] =
     [\<lparr>task_id = 1, title = ''Learn Express'', completed = False\<rparr>,
      \<lparr>task_id = 2, title = ''Build a REST API'', completed = False\<rparr>,
      \<lparr>task_id = 4, title = ''Add Swagger Documentation'', completed = False\<rparr>,
      \<lparr>task_id = 5, title = ''Deploy to Server'', completed = False\<rparr>,
      \<lparr>task_id = 5, title = ''X'', completed = False\<rparr>]
   \<and> \<not> distinct (map task_id (run initial_tasks
         [DELETE_task (ascii ''3''), POST_task [''title'' \<mapsto> JStr ''X'', ''completed'' \<mapsto> JBool False]]))"
proof (intro conjI)
  show "reachable (run initial_tasks
     [DELETE_task (ascii ''3''), POST_task [''title'' \<mapsto> JStr ''X'', ''completed'' \<mapsto> JBool False]])"
    by (rule reachable_run [OF reachable.seed])
qed (simp_all add: parseInt_eval handler_eval)

text \<open>
  Claim C9. In every reachable array, a path identifier that starts with decimal digits
  whose number is the id of a task resolves that task, whatever follows the digits (as
  \<open>3abc\<close> does for task 3). With \<open>i\<close> the first position whose task has that id: GET
  answers 200 with the task at \<open>i\<close>; DELETE removes the task at \<open>i\<close> from the array and
  answers 200 with it as a one-element array; and PUT with a valid body writes title and
  completed into the task at \<open>i\<close> and answers 200 with the task updated. The ids of a
  reachable array are positive, which keeps the one string that \<open>parseInt\<close> reads
  differently, a prefix \<open>0x\<close>, out of the way.
\<close>

theorem C9_prefix_resolution:
  assumes "reachable tasks"
      and "leading_numeric_prefix param \<noteq> []"
      and "int (decimal_value (leading_numeric_prefix param)) \<in> task_id ` set tasks"
  shows "parseInt param = Some (int (decimal_value (leading_numeric_prefix param))) \<and>
         (\<exists>i<length tasks.
            task_id (tasks ! i) = int (decimal_value (leading_numeric_prefix param)) \<and>
            (\<forall>j<i. task_id (tasks ! j) \<noteq> task_id (tasks ! i)) \<and>
            get_task tasks param =
              \<lparr>status = 200, success = True, data = Some (Task (tasks ! i)),
               message = ''Task fetched successfully''\<rparr> \<and>
            delete_task tasks param =
              (take i tasks @ drop (Suc i) tasks,
               \<lparr>status = 200, success = True, data = Some (Tasks [tasks ! i]),
                message = ''Task deleted successfully''\<rparr>) \<and>
            (\<forall>req_body s b.
               req_body ''title'' = Some (JStr s) \<and> req_body ''completed'' = Some (JBool b) \<longrightarrow>
               put_task tasks param req_body =
                 (tasks[i := (tasks ! i)\<lparr>title := s, completed := b\<rparr>],
                  \<lparr>status = 200, success = True,
                   data = Some (Task ((tasks ! i)\<lparr>title := s, completed := b\<rparr>)),
                   message = ''Task updated successfully''\<rparr>)))"
proof -
  let ?n = "int (decimal_value (leading_numeric_prefix param))"
  from assms(3) obtain u where u: "u \<in> set tasks" "task_id u = ?n" by auto
  with reachable_ids_positive [OF assms(1)] have "0 < decimal_value (leading_numeric_prefix param)"
    by fastforce
  then have p: "parseInt param = Some ?n" by (rule parseInt_positive_prefix)
  with u have "\<exists>u\<in>set tasks. id_matches param u"
    by (intro bexI [of _ u]) (simp_all add: id_matches_def)
  from first_match [OF this] obtain i where i: "i < length tasks" "id_matches param (tasks ! i)"
    "\<forall>j<i. \<not> id_matches param (tasks ! j)" "find (id_matches param) tasks = Some (tasks ! i)"
    "findIndex (id_matches param) tasks = int i" by blast
  from i(2) p have idt: "task_id (tasks ! i) = ?n" by (simp add: id_matches_def)
  from i(3) p idt have before: "\<forall>j<i. task_id (tasks ! j) \<noteq> task_id (tasks ! i)"
    by (auto simp: id_matches_def)
  from i(4) have g: "get_task tasks param =
      \<lparr>status = 200, success = True, data = Some (Task (tasks ! i)),
       message = ''Task fetched successfully''\<rparr>" by (simp add: get_task_def)
  from i(1,5) have d: "delete_task tasks param =
      (take i tasks @ drop (Suc i) tasks,
       \<lparr>status = 200, success = True, data = Some (Tasks [tasks ! i]),
        message = ''Task deleted successfully''\<rparr>)"
    by (simp add: delete_task_def Let_def array_splice_one)
  from i(4,5) have w: "\<forall>req_body s b.
      req_body ''title'' = Some (JStr s) \<and> req_body ''completed'' = Some (JBool b) \<longrightarrow>
      put_task tasks param req_body =
        (tasks[i := (tasks ! i)\<lparr>title := s, completed := b\<rparr>],
         \<lparr>status = 200, success = True,
          data = Some (Task ((tasks ! i)\<lparr>title := s, completed := b\<rparr>)),
          message = ''Task updated successfully''\<rparr>)"
    by (simp add: put_task_def Let_def)
  from i(1) idt before g d w p show ?thesis by blast
qed

theorem C9_prefix_resolution_witness:
  "get_task initial_tasks (ascii ''3abc'') =
     \<lparr>status = 200, success = True,
      data = Some (Task \<lparr>task_id = 3, title = ''Test API with Postman'', completed = True\<rparr>),
      message = ''Task fetched successfully''\<rparr>
   \<and> delete_task initial_tasks (ascii ''3abc'') =
     ([\<lparr>task_id = 1, title = ''Learn Express'', completed = False\<rparr>,
       \<lparr>task_id = 2, title = ''Build a REST API'', completed = False\<rparr>,
       \<lparr>task_id = 4, title = ''Add Swagger Documentation'', completed = False\<rparr>,
       \<lparr>task_id = 5, title = ''Deploy to Server'', completed = False\<rparr>],
      \<lparr>status = 200, success = True,
       data = Some (Tasks [\<lparr>task_id = 3, title = ''Test API with Postman'', completed = True\<rparr>]),
       message = ''Task deleted successfully''\<rparr>)
   \<and> put_task initial_tasks (ascii ''3abc'') [''title'' \<mapsto> JStr ''X'', ''completed'' \<mapsto> JBool False] =
     ([\<lparr>task_id = 1, title = ''Learn Express'', completed = False\<rparr>,
       \<lparr>task_id = 2, title = ''Build a REST API'', completed = False\<rparr>,
       \<lparr>task_id = 3, title = ''X'', completed = False\<rparr>,
       \<lparr>task_id = 4, title = ''Add Swagger Documentation'', completed = False\<rparr>,
       \<lparr>task_id = 5, title = ''Deploy to Server'', completed = False\<rparr>],
      \<lparr>status = 200, success = True,
       data = Some (Task \<lparr>task_id = 3, title = ''X'', completed = False\<rparr>),
       message = ''Task updated successfully''\<rparr>)"
proof -
  have pre: "leading_numeric_prefix (ascii ''3abc'') = ascii ''3''"
    by (simp add: leading_numeric_prefix_def is_decimal_digit_def ascii_def)
  have val: "decimal_value (ascii ''3'') = 3" by (simp add: decimal_value_def ascii_def)
  have ne: "leading_numeric_prefix (ascii ''3abc'') \<noteq> []" unfolding pre by (simp add: ascii_def)
  have mem: "int (decimal_value (leading_numeric_prefix (ascii ''3abc''))) \<in> task_id ` set initial_tasks"
    by (simp add: pre val initial_tasks_def)
  have body: "[''title'' \<mapsto> JStr ''X'', ''completed'' \<mapsto> JBool False] ''title'' = Some (JStr ''X'') \<and>
              [''title'' \<mapsto> JStr ''X'', ''completed'' \<mapsto> JBool False] ''completed'' = Some (JBool False)"
    by simp
  from C9_prefix_resolution [OF reachable.seed ne mem]
  obtain i where i: "i < length initial_tasks"
    "task_id (initial_tasks ! i) = int (decimal_value (leading_numeric_prefix (ascii ''3abc'')))"
    "get_task initial_tasks (ascii ''3abc'') =
       \<lparr>status = 200, success = True, data = Some (Task (initial_tasks ! i)),
        message = ''Task fetched successfully''\<rparr>"
    "delete_task initial_tasks (ascii ''3abc'') =
       (take i initial_tasks @ drop (Suc i) initial_tasks,
        \<lparr>status = 200, success = True, data = Some (Tasks [initial_tasks ! i]),
         message = ''Task deleted successfully''\<rparr>)"
    and every_body: "\<forall>req_body s b.
       req_body ''title'' = Some (JStr s) \<and> req_body ''completed'' = Some (JBool b) \<longrightarrow>
       put_task initial_tasks (ascii ''3abc'') req_body =
         (initial_tasks[i := (initial_tasks ! i)\<lparr>title := s, completed := b\<rparr>],
          \<lparr>status = 200, success = True,
           data = Some (Task ((initial_tasks ! i)\<lparr>title := s, completed := b\<rparr>)),
           message = ''Task updated successfully''\<rparr>)"
    by blast
  from every_body [rule_format, of "[''title'' \<mapsto> JStr ''X'', ''completed'' \<mapsto> JBool False]" "''X''" False] body
  have put: "put_task initial_tasks (ascii ''3abc'') [''title'' \<mapsto> JStr ''X'', ''completed'' \<mapsto> JBool False] =
       (initial_tasks[i := (initial_tasks ! i)\<lparr>title := ''X'', completed := False\<rparr>],
        \<lparr>status = 200, success = True,
         data = Some (Task ((initial_tasks ! i)\<lparr>title := ''X'', completed := False\<rparr>)),
         message = ''Task updated successfully''\<rparr>)"
    by blast
  from i(2) have id3: "task_id (initial_tasks ! i) = 3" unfolding pre val by simp
  from i(1) have "i = 0 \<or> i = 1 \<or> i = 2 \<or> i = 3 \<or> i = 4" by (simp add: initial_tasks_def) arith
  with id3 have "i = 2" by (auto simp: initial_tasks_def)
  with i(3,4) put show ?thesis by (simp add: initial_tasks_def)
qed

end
